theory Spec2Isabelle
  imports Main
begin

section \<open>The entry list component\<close>

text \<open>
  A shallow embedding of \<^verbatim>\<open>src/components/EntryList.tsx\<close>, a React function component that
  lists the keys of a remote datastore page by page, filtered by a search prefix.

  The component's React state (\<^verbatim>\<open>entries\<close>, \<^verbatim>\<open>searchQuery\<close>, \<^verbatim>\<open>isLoading\<close>, \<^verbatim>\<open>cursor\<close>,
  \<^verbatim>\<open>hasMore\<close>) and the props its code reads are fields of one record, together with what
  the component does to its surroundings: the requests it has sent and that are not yet
  answered, the debounce timer, the toasts shown, the console lines and the calls of the
  selection callback. An asynchronous call of \<^verbatim>\<open>fetchEntries\<close> is two functions: the part
  that runs until the first \<^verbatim>\<open>await\<close>, and the part that runs when the answer arrives.

  Strings are well-formed texts (\<^verbatim>\<open>encodeURIComponent\<close> does not throw on them). The parsed
  body is modelled at the shape the component's types declare,
  \<^verbatim>\<open>{ keys?: [{key: string}], nextPageCursor?: string, error?: string }\<close>; a field that is
  absent and a field that is \<^verbatim>\<open>null\<close> are both \<open>None\<close>, because the component only
  tests these fields for truthiness and both are falsy.
\<close>

subsection \<open>Data\<close>

record DatastoreEntry =
  key :: string

text \<open>The elements of \<^verbatim>\<open>data.keys\<close> may carry further fields; the component copies \<^verbatim>\<open>key\<close> only.\<close>

record 'm response =
  error :: "string option"
  keys :: "'m DatastoreEntry_scheme list option"
  nextPageCursor :: "string option"

text \<open>
  What \<^verbatim>\<open>await fetch(...)\<close> followed by \<^verbatim>\<open>await response.json()\<close> gives: either of them
  throws (network failure, malformed JSON), or there is a parsed body. A thrown value
  is an \<^verbatim>\<open>Error\<close> with its message, or some other value.
\<close>

datatype thrown = ErrorInstance string | NotAnError

datatype 'm outcome = Threw thrown | Parsed "'m response"

record toast_call =
  message :: string
  severity :: string
  duration :: nat

text \<open>
  A request: the datastore name that \<^verbatim>\<open>encodeURIComponent\<close> puts in the path, and the
  entries the object given to \<^verbatim>\<open>URLSearchParams\<close> has, in order.
\<close>

record request =
  datastore :: string
  params :: "(string \<times> string) list"

record component =
  universeId :: string
  apiToken :: string
  datastoreName :: string
  entries :: "DatastoreEntry list"
  searchQuery :: string
  isLoading :: bool
  cursor :: string
  hasMore :: bool
  mounted :: bool
  timer :: "nat option"
  pending :: "(request \<times> bool) list"
  toasts :: "toast_call list"
  console :: "string list"
  selected :: "string list"

text \<open>
  \<open>timer\<close> is the time in milliseconds left on the debounce timer, if one is set.
  \<open>pending\<close> holds the requests sent and not yet answered, each with the \<^verbatim>\<open>newSearch\<close>
  argument of the call that waits for it. \<open>selected\<close> lists the arguments
  \<^verbatim>\<open>onSelectEntry\<close> was called with.
\<close>

subsection \<open>JavaScript truthiness of an optional string\<close>

definition truthy :: "string option \<Rightarrow> bool" where
  "truthy v = (case v of None \<Rightarrow> False | Some s \<Rightarrow> s \<noteq> [])"

text \<open>\<^verbatim>\<open>v || d\<close>\<close>

definition or_else :: "string option \<Rightarrow> string \<Rightarrow> string" where
  "or_else v d = (case v of None \<Rightarrow> d | Some s \<Rightarrow> if s = [] then d else s)"

subsection \<open>fetchEntries\<close>

text \<open>Lines 36 to 46: the cursor to send and the request.\<close>

definition currentCursor :: "bool \<Rightarrow> component \<Rightarrow> string" where
  "currentCursor newSearch c = (if newSearch then [] else cursor c)"

definition fetch_request :: "string \<Rightarrow> bool \<Rightarrow> component \<Rightarrow> request" where
  "fetch_request searchValue newSearch c =
     \<lparr>datastore = datastoreName c,
      params = [(''universeId'', universeId c), (''apiToken'', apiToken c),
                (''prefix'', searchValue)]
             @ (if currentCursor newSearch c = [] then []
                else [(''cursor'', currentCursor newSearch c)])\<rparr>"

text \<open>Lines 35 to 46: up to the first \<^verbatim>\<open>await\<close>.\<close>

definition fetchEntries_begin :: "string \<Rightarrow> bool \<Rightarrow> component \<Rightarrow> component" where
  "fetchEntries_begin searchValue newSearch c =
     c\<lparr>isLoading := True,
       pending := pending c @ [(fetch_request searchValue newSearch c, newSearch)]\<rparr>"

text \<open>Lines 53 to 55.\<close>

definition formattedEntries :: "'m response \<Rightarrow> DatastoreEntry list" where
  "formattedEntries data =
     map (\<lambda>k. \<lparr>key = key k\<rparr>) (case keys data of None \<Rightarrow> [] | Some ks \<Rightarrow> ks)"

text \<open>
  Lines 47 to 61, the rest of the \<^verbatim>\<open>try\<close> block: \<open>Inl\<close> is the value thrown, \<open>Inr\<close> the
  component after the three state updates. The message of \<^verbatim>\<open>new Error(data.error)\<close> is the
  string \<^verbatim>\<open>data.error\<close>, which is not empty where line 50 is reached.
\<close>

definition fetchEntries_try :: "bool \<Rightarrow> 'm outcome \<Rightarrow> component \<Rightarrow> thrown + component" where
  "fetchEntries_try newSearch out c =
     (case out of
        Threw e \<Rightarrow> Inl e
      | Parsed data \<Rightarrow>
          if truthy (error data) then Inl (ErrorInstance (or_else (error data) []))
          else Inr (c\<lparr>entries := (if newSearch then formattedEntries data
                                   else entries c @ formattedEntries data),
                      cursor := or_else (nextPageCursor data) [],
                      hasMore := truthy (nextPageCursor data)\<rparr>))"

text \<open>Lines 63 and 64.\<close>

definition errorMessage :: "thrown \<Rightarrow> string" where
  "errorMessage e = (case e of ErrorInstance m \<Rightarrow> m | NotAnError \<Rightarrow> ''Unknown error'')"

text \<open>Lines 47 to 68: what runs once the answer is there, with \<^verbatim>\<open>catch\<close> and \<^verbatim>\<open>finally\<close>.\<close>

definition fetchEntries_resume :: "bool \<Rightarrow> 'm outcome \<Rightarrow> component \<Rightarrow> component" where
  "fetchEntries_resume newSearch out c =
     (case fetchEntries_try newSearch out c of
        Inl e \<Rightarrow> c\<lparr>toasts := toasts c @
                     [\<lparr>message = ''Error: '' @ errorMessage e, severity = ''error'',
                       duration = 3000\<rparr>]\<rparr>
      | Inr c' \<Rightarrow> c')\<lparr>isLoading := False\<rparr>"

text \<open>The pending request number \<open>i\<close> is answered with \<open>out\<close>, and the call waiting for it goes on.\<close>

definition fetchEntries_settle :: "nat \<Rightarrow> 'm outcome \<Rightarrow> component \<Rightarrow> component" where
  "fetchEntries_settle i out c =
     (if i < length (pending c)
      then (fetchEntries_resume (snd (pending c ! i)) out c)
             \<lparr>pending := take i (pending c) @ drop (Suc i) (pending c)\<rparr>
      else c)"

text \<open>
  One whole call of \<^verbatim>\<open>fetchEntries(searchValue, newSearch)\<close> with nothing else happening
  while it waits: it sends its request and is answered with \<open>out\<close>.
\<close>

definition fetchEntries :: "'m outcome \<Rightarrow> string \<Rightarrow> bool \<Rightarrow> component \<Rightarrow> component" where
  "fetchEntries out searchValue newSearch c =
     fetchEntries_settle (length (pending c)) out (fetchEntries_begin searchValue newSearch c)"

text \<open>
  Calls of \<^verbatim>\<open>fetchEntries\<close> one after the other, every call answered with a parsed body
  before the next starts: the first with the given \<^verbatim>\<open>newSearch\<close>, the others as continuation
  calls. Each page comes with the \<^verbatim>\<open>searchValue\<close> of its call.
\<close>

fun fetch_pages :: "bool \<Rightarrow> (string \<times> 'm response) list \<Rightarrow> component \<Rightarrow> component" where
  "fetch_pages newSearch [] c = c"
| "fetch_pages newSearch ((searchValue, p) # ps) c =
     fetch_pages False ps (fetchEntries (Parsed p) searchValue newSearch c)"

subsection \<open>Selection\<close>

text \<open>Lines 108 to 111.\<close>

definition handleEntrySelect :: "string \<Rightarrow> component \<Rightarrow> component" where
  "handleEntrySelect k c =
     c\<lparr>console := console c @ [''Selected entry: '' @ k], selected := selected c @ [k]\<rparr>"

subsection \<open>Effects, timer and observer\<close>

text \<open>
  After an event React renders again and runs the effects whose dependencies changed.
  \<^verbatim>\<open>fetchEntries\<close> is a \<^verbatim>\<open>useCallback\<close> on \<^verbatim>\<open>[cursor, toast, datastoreName, universeId, apiToken]\<close>
  (line 70; \<^verbatim>\<open>toast\<close> is taken to be the same function at every render), so it is a new
  function exactly when one of these changed. The effect of lines 73 to 77 depends on
  \<^verbatim>\<open>[datastoreName, fetchEntries]\<close>, the one of lines 79 to 87 on
  \<^verbatim>\<open>[searchQuery, fetchEntries, datastoreName]\<close>; the cleanup of the second clears the old
  timer before a new one is set. The state updates of one event are rendered together,
  and every event is handled and rendered before the next one comes: a callback always
  runs with the props and state of the latest render.
\<close>

definition fetchEntries_changed :: "component \<Rightarrow> component \<Rightarrow> bool" where
  "fetchEntries_changed old new =
     (cursor new \<noteq> cursor old \<or> datastoreName new \<noteq> datastoreName old \<or>
      universeId new \<noteq> universeId old \<or> apiToken new \<noteq> apiToken old)"

text \<open>Lines 74 to 76.\<close>

definition datastore_effect :: "component \<Rightarrow> component" where
  "datastore_effect c = (if datastoreName c \<noteq> [] then fetchEntries_begin [] True c else c)"

text \<open>Line 80 and line 84: the timer is set to 500 milliseconds.\<close>

definition debounce_effect :: "component \<Rightarrow> component" where
  "debounce_effect c = c\<lparr>timer := Some 500\<rparr>"

text \<open>Lines 81 to 83: the timer's callback.\<close>

definition timer_callback :: "component \<Rightarrow> component" where
  "timer_callback c =
     (if datastoreName c \<noteq> [] then fetchEntries_begin (searchQuery c) True c else c)"

definition rerender :: "component \<Rightarrow> component \<Rightarrow> component" where
  "rerender old new =
     (let c1 = (if fetchEntries_changed old new then datastore_effect new else new)
      in if searchQuery new \<noteq> searchQuery old \<or> fetchEntries_changed old new
         then debounce_effect c1 else c1)"

text \<open>
  Lines 89 to 106 and 140 to 146. The sentinel is rendered when \<^verbatim>\<open>hasMore\<close> holds, and it
  is observed unless \<^verbatim>\<open>isLoading || !hasMore\<close>; the observer is renewed whenever one of
  \<^verbatim>\<open>[fetchEntries, isLoading, hasMore, searchQuery]\<close> changes, the old one disconnected.
\<close>

definition observing :: "component \<Rightarrow> bool" where
  "observing c = (mounted c \<and> hasMore c \<and> \<not> (isLoading c \<or> \<not> hasMore c))"

text \<open>Lines 94 to 98, the observer's callback, for a sentinel that \<^verbatim>\<open>isIntersecting\<close>.\<close>

definition observer_callback :: "component \<Rightarrow> component" where
  "observer_callback c = fetchEntries_begin (searchQuery c) False c"

subsection \<open>The component as a transition system\<close>

text \<open>Line 25 to 29: the initial state; then both effects run.\<close>

definition initial :: "string \<Rightarrow> string \<Rightarrow> string \<Rightarrow> component" where
  "initial u t d =
     \<lparr>universeId = u, apiToken = t, datastoreName = d,
      entries = [], searchQuery = [], isLoading = False, cursor = [], hasMore = True,
      mounted = True, timer = None, pending = [], toasts = [], console = [], selected = []\<rparr>"

definition mount :: "string \<Rightarrow> string \<Rightarrow> string \<Rightarrow> component" where
  "mount u t d = debounce_effect (datastore_effect (initial u t d))"

text \<open>
  The events: the user changes the search text; time passes; a pending request is
  answered; the sentinel becomes fully visible; the user clicks the button of a key;
  the parent passes new props; the component is unmounted.
\<close>

datatype 'm event =
    Change string
  | Elapse nat
  | Respond nat "'m outcome"
  | Intersect
  | Click string
  | Props string string string
  | Unmount

fun step :: "'m event \<Rightarrow> component \<Rightarrow> component" where
  "step (Change v) c =
     (if mounted c then rerender c (fetchEntries_begin v True (c\<lparr>searchQuery := v\<rparr>)) else c)"
| "step (Elapse d) c =
     (case timer c of
        None \<Rightarrow> c
      | Some r \<Rightarrow> if d < r then c\<lparr>timer := Some (r - d)\<rparr>
                  else timer_callback (c\<lparr>timer := None\<rparr>))"
| "step (Respond i out) c =
     (let c' = fetchEntries_settle i out c
      in if mounted c then rerender c c'
         else c\<lparr>toasts := toasts c', pending := pending c'\<rparr>)"
| "step Intersect c = (if observing c then observer_callback c else c)"
| "step (Click k) c =
     (if mounted c \<and> k \<in> set (map key (entries c)) then handleEntrySelect k c else c)"
| "step (Props u t d) c =
     (if mounted c then rerender c (c\<lparr>universeId := u, apiToken := t, datastoreName := d\<rparr>)
      else c)"
| "step Unmount c = c\<lparr>mounted := False, timer := None\<rparr>"

fun run :: "'m event list \<Rightarrow> component \<Rightarrow> component" where
  "run [] c = c"
| "run (e # es) c = run es (step e c)"

subsection \<open>Observations on runs\<close>

text \<open>The number of calls of \<^verbatim>\<open>fetchEntries\<close> that the observer of the sentinel makes in a run.\<close>

fun sentinel_fetches :: "'m event list \<Rightarrow> component \<Rightarrow> nat" where
  "sentinel_fetches [] c = 0"
| "sentinel_fetches (e # es) c =
     (case e of Intersect \<Rightarrow> (if observing c then 1 else 0) | _ \<Rightarrow> 0)
     + sentinel_fetches es (step e c)"

text \<open>
  An event brings more when it is an answer with a parsed body whose \<^verbatim>\<open>error\<close> is not truthy
  and whose \<^verbatim>\<open>nextPageCursor\<close> is truthy.
\<close>

fun brings_more :: "'m event \<Rightarrow> bool" where
  "brings_more (Respond i (Parsed data)) = (\<not> truthy (error data) \<and> truthy (nextPageCursor data))"
| "brings_more e = False"

subsection \<open>Example inputs\<close>

text \<open>A body with the given keys and next cursor and no \<^verbatim>\<open>error\<close> field.\<close>

definition page :: "string list \<Rightarrow> string option \<Rightarrow> unit response" where
  "page ks next = \<lparr>error = None, keys = Some (map (\<lambda>k. \<lparr>key = k\<rparr>) ks), nextPageCursor = next\<rparr>"

text \<open>A component that has loaded one page with the key \<open>old\<close> and the next cursor \<open>c0\<close>.\<close>

definition loaded :: component where
  "loaded = fetchEntries (Parsed (page [''old''] (Some ''c0''))) [] True (initial ''u'' ''t'' ''ds'')"

text \<open>A component mounted with no datastore chosen.\<close>

definition unselected :: component where
  "unselected = mount ''u'' ''t'' []"

text \<open>
  The sentinel starts a continuation call, the user types \<open>x\<close>, and the answer to the fresh
  search for \<open>x\<close> arrives first, with no next cursor.
\<close>

definition racing :: "unit event list" where
  "racing = [Intersect, Change ''x'', Respond 1 (Parsed (page [''x1''] None))]"

section \<open>Properties of fetchEntries\<close>

lemma fetchEntries_resume_Inr:
  "fetchEntries_try ns out c = Inr c' \<Longrightarrow> fetchEntries_resume ns out c = c'\<lparr>isLoading := False\<rparr>"
  by (simp add: fetchEntries_resume_def)

lemma fetchEntries_resume_Inl:
  "fetchEntries_try ns out c = Inl e \<Longrightarrow>
   fetchEntries_resume ns out c =
     c\<lparr>toasts := toasts c @ [\<lparr>message = ''Error: '' @ errorMessage e, severity = ''error'',
                                duration = 3000\<rparr>],
       isLoading := False\<rparr>"
  by (simp add: fetchEntries_resume_def)

lemma fetchEntries_try_Parsed_ok:
  "\<not> truthy (error data) \<Longrightarrow>
   fetchEntries_try ns (Parsed data) c =
     Inr (c\<lparr>entries := (if ns then formattedEntries data else entries c @ formattedEntries data),
            cursor := or_else (nextPageCursor data) [],
            hasMore := truthy (nextPageCursor data)\<rparr>)"
  by (simp add: fetchEntries_try_def)

lemma fetchEntries_try_Parsed_error:
  "error data = Some m \<Longrightarrow> m \<noteq> [] \<Longrightarrow>
   fetchEntries_try ns (Parsed data) c = Inl (ErrorInstance m)"
  by (simp add: fetchEntries_try_def truthy_def or_else_def)

lemma fetchEntries_try_Threw: "fetchEntries_try ns (Threw e) c = Inl e"
  by (simp add: fetchEntries_try_def)

lemma fetchEntries_whole:
  "fetchEntries out sv ns c =
     (fetchEntries_resume ns out (fetchEntries_begin sv ns c))\<lparr>pending := pending c\<rparr>"
  by (simp add: fetchEntries_def fetchEntries_settle_def fetchEntries_begin_def)

lemma fetchEntries_ok:
  "\<not> truthy (error data) \<Longrightarrow>
   fetchEntries (Parsed data) sv ns c =
     c\<lparr>entries := (if ns then formattedEntries data else entries c @ formattedEntries data),
       cursor := or_else (nextPageCursor data) [],
       hasMore := truthy (nextPageCursor data),
       isLoading := False\<rparr>"
  by (simp add: fetchEntries_whole fetchEntries_resume_Inr [OF fetchEntries_try_Parsed_ok]
      fetchEntries_begin_def)

lemma fetchEntries_caught:
  "fetchEntries_try ns out (fetchEntries_begin sv ns c) = Inl e \<Longrightarrow>
   fetchEntries out sv ns c =
     c\<lparr>toasts := toasts c @ [\<lparr>message = ''Error: '' @ errorMessage e, severity = ''error'',
                                duration = 3000\<rparr>],
       isLoading := False\<rparr>"
  by (simp add: fetchEntries_whole fetchEntries_resume_Inl fetchEntries_begin_def)

lemma loaded_eq:
  "loaded = (initial ''u'' ''t'' ''ds'')\<lparr>entries := [\<lparr>key = ''old''\<rparr>], cursor := ''c0''\<rparr>"
proof -
  have "\<not> truthy (error (page [''old''] (Some ''c0'')))"
    by (simp add: page_def truthy_def)
  then show ?thesis
    by (simp add: loaded_def fetchEntries_ok formattedEntries_def page_def or_else_def
        truthy_def initial_def)
qed

text \<open>
  C1. A call of \<^verbatim>\<open>fetchEntries\<close> that is answered with a parsed body whose \<^verbatim>\<open>error\<close> is
  not truthy replaces the entry list by the page's mapped keys when \<^verbatim>\<open>newSearch\<close> holds
  and appends them otherwise; the mapped keys are the keys of \<^verbatim>\<open>data.keys\<close> in order, none
  when the field is absent. The stored cursor becomes \<^verbatim>\<open>nextPageCursor\<close>, the empty string
  if that is absent, and \<^verbatim>\<open>hasMore\<close> holds exactly if \<^verbatim>\<open>nextPageCursor\<close> is there and not
  empty, that is exactly if the stored cursor is not empty.
\<close>

theorem success_replaces_or_appends:
  assumes "\<not> truthy (error data)"
  shows "entries (fetchEntries (Parsed data) sv ns c) =
           (if ns then formattedEntries data else entries c @ formattedEntries data)
       \<and> map key (formattedEntries data) = (case keys data of None \<Rightarrow> [] | Some ks \<Rightarrow> map key ks)
       \<and> cursor (fetchEntries (Parsed data) sv ns c) =
           (case nextPageCursor data of None \<Rightarrow> [] | Some x \<Rightarrow> x)
       \<and> hasMore (fetchEntries (Parsed data) sv ns c) =
           (nextPageCursor data \<noteq> None \<and> nextPageCursor data \<noteq> Some [])
       \<and> hasMore (fetchEntries (Parsed data) sv ns c) =
           (cursor (fetchEntries (Parsed data) sv ns c) \<noteq> [])"
proof -
  have k: "map key (formattedEntries data) = (case keys data of None \<Rightarrow> [] | Some ks \<Rightarrow> map key ks)"
    by (simp add: formattedEntries_def comp_def split: option.split)
  have c: "or_else (nextPageCursor data) [] = (case nextPageCursor data of None \<Rightarrow> [] | Some x \<Rightarrow> x)"
    by (simp add: or_else_def split: option.split)
  have h: "truthy (nextPageCursor data) = (nextPageCursor data \<noteq> None \<and> nextPageCursor data \<noteq> Some [])"
    by (simp add: truthy_def split: option.split)
  have h': "truthy (nextPageCursor data) = (or_else (nextPageCursor data) [] \<noteq> [])"
    by (simp add: truthy_def or_else_def split: option.split)
  show ?thesis
    using k c h h' by (simp add: fetchEntries_ok [OF assms])
qed

text \<open>
  The body \<^verbatim>\<open>{"keys": [{"key":"a"},{"key":"b"}], "nextPageCursor": ""}\<close> answering a fresh
  search: the entries are a and b, \<^verbatim>\<open>hasMore\<close> is false, the cursor is empty.
\<close>

theorem success_replaces_or_appends_witness:
  "\<not> truthy (error (page [''a'', ''b''] (Some [])))
   \<and> entries (fetchEntries (Parsed (page [''a'', ''b''] (Some []))) ''q'' True loaded)
       = [\<lparr>key = ''a''\<rparr>, \<lparr>key = ''b''\<rparr>]
   \<and> hasMore (fetchEntries (Parsed (page [''a'', ''b''] (Some []))) ''q'' True loaded) = False
   \<and> cursor (fetchEntries (Parsed (page [''a'', ''b''] (Some []))) ''q'' True loaded) = []"
proof -
  have h: "\<not> truthy (error (page [''a'', ''b''] (Some [])))"
    by (simp add: truthy_def page_def)
  show ?thesis
    using h success_replaces_or_appends [OF h, of "''q''" True loaded]
    by (simp add: formattedEntries_def page_def)
qed

text \<open>
  C2, as stated, fails. The body \<^verbatim>\<open>{"error": ""}\<close> contains an \<^verbatim>\<open>error\<close> field, but the
  test of line 49 is for truthiness and the empty string is falsy: answering a fresh
  search it produces no toast, and the entry list, the cursor and \<^verbatim>\<open>hasMore\<close> all change.
\<close>

theorem empty_error_is_success:
  "error (\<lparr>error = Some [], keys = None, nextPageCursor = None\<rparr> :: unit response) \<noteq> None
   \<and> toasts (fetchEntries (Parsed (\<lparr>error = Some [], keys = None, nextPageCursor = None\<rparr> :: unit response)) ''q'' True loaded) = toasts loaded
   \<and> entries loaded = [\<lparr>key = ''old''\<rparr>]
   \<and> entries (fetchEntries (Parsed (\<lparr>error = Some [], keys = None, nextPageCursor = None\<rparr> :: unit response)) ''q'' True loaded) = []
   \<and> cursor loaded = ''c0''
   \<and> cursor (fetchEntries (Parsed (\<lparr>error = Some [], keys = None, nextPageCursor = None\<rparr> :: unit response)) ''q'' True loaded) = []
   \<and> hasMore loaded
   \<and> \<not> hasMore (fetchEntries (Parsed (\<lparr>error = Some [], keys = None, nextPageCursor = None\<rparr> :: unit response)) ''q'' True loaded)"
proof -
  have "\<not> truthy (error (\<lparr>error = Some [], keys = None, nextPageCursor = None\<rparr> :: unit response))"
    by (simp add: truthy_def)
  then show ?thesis
    by (simp add: fetchEntries_ok formattedEntries_def or_else_def truthy_def loaded_eq initial_def)
qed

text \<open>
  C2, amended. A call of \<^verbatim>\<open>fetchEntries\<close> whose request throws, or whose parsed body has a
  non-empty \<^verbatim>\<open>error\<close> string, adds one toast with the message \<open>Error: \<close> followed by the
  message of the error (\<open>Unknown error\<close> for a thrown value that is not an \<^verbatim>\<open>Error\<close>),
  severity \<open>error\<close> and duration 3000; it ends with \<^verbatim>\<open>isLoading\<close> false and changes
  nothing else: not the entry list, not the cursor, not \<^verbatim>\<open>hasMore\<close>.
\<close>

theorem failure_toasts_and_keeps_state:
  "fetchEntries (Threw e :: 'm outcome) sv ns c =
     c\<lparr>toasts := toasts c @ [\<lparr>message = ''Error: '' @ errorMessage e, severity = ''error'',
                                duration = 3000\<rparr>],
       isLoading := False\<rparr>
   \<and> errorMessage (ErrorInstance m) = m
   \<and> errorMessage NotAnError = ''Unknown error''
   \<and> (error data = Some m \<and> m \<noteq> [] \<longrightarrow>
        fetchEntries (Parsed (data :: 'm response)) sv ns c =
          c\<lparr>toasts := toasts c @ [\<lparr>message = ''Error: '' @ m, severity = ''error'',
                                     duration = 3000\<rparr>],
            isLoading := False\<rparr>)"
proof -
  have a: "fetchEntries (Threw e :: 'm outcome) sv ns c =
     c\<lparr>toasts := toasts c @ [\<lparr>message = ''Error: '' @ errorMessage e, severity = ''error'',
                                duration = 3000\<rparr>],
       isLoading := False\<rparr>"
    by (rule fetchEntries_caught) (rule fetchEntries_try_Threw)
  have b: "fetchEntries (Parsed data) sv ns c =
          c\<lparr>toasts := toasts c @ [\<lparr>message = ''Error: '' @ m, severity = ''error'',
                                     duration = 3000\<rparr>],
            isLoading := False\<rparr>" if "error data = Some m" "m \<noteq> []"
    using fetchEntries_caught [OF fetchEntries_try_Parsed_error [OF that]]
    by (simp add: errorMessage_def)
  show ?thesis using a b by (simp add: errorMessage_def)
qed

text \<open>
  The body \<^verbatim>\<open>{"error": "not found"}\<close> gives the toast \<open>Error: not found\<close> and leaves the
  entries as they were.
\<close>

theorem failure_toasts_and_keeps_state_witness:
  "error (\<lparr>error = Some ''not found'', keys = None, nextPageCursor = None\<rparr> :: unit response) = Some ''not found''
   \<and> ''not found'' \<noteq> []
   \<and> toasts (fetchEntries (Parsed (\<lparr>error = Some ''not found'', keys = None, nextPageCursor = None\<rparr> :: unit response)) ''q'' True loaded)
       = [\<lparr>message = ''Error: not found'', severity = ''error'', duration = 3000\<rparr>]
   \<and> entries (fetchEntries (Parsed (\<lparr>error = Some ''not found'', keys = None, nextPageCursor = None\<rparr> :: unit response)) ''q'' True loaded)
       = [\<lparr>key = ''old''\<rparr>]
   \<and> cursor (fetchEntries (Parsed (\<lparr>error = Some ''not found'', keys = None, nextPageCursor = None\<rparr> :: unit response)) ''q'' True loaded)
       = ''c0''
   \<and> hasMore (fetchEntries (Parsed (\<lparr>error = Some ''not found'', keys = None, nextPageCursor = None\<rparr> :: unit response)) ''q'' True loaded)
   \<and> \<not> isLoading (fetchEntries (Parsed (\<lparr>error = Some ''not found'', keys = None, nextPageCursor = None\<rparr> :: unit response)) ''q'' True loaded)
   \<and> toasts (fetchEntries (Threw (ErrorInstance ''Failed to fetch'') :: unit outcome) ''q'' True loaded)
       = [\<lparr>message = ''Error: Failed to fetch'', severity = ''error'', duration = 3000\<rparr>]"
  using failure_toasts_and_keeps_state [where e = "ErrorInstance ''Failed to fetch''"
      and sv = "''q''" and ns = True and c = loaded and m = "''not found''"
      and data = "\<lparr>error = Some ''not found'', keys = None, nextPageCursor = None\<rparr> :: unit response"]
  by (simp add: loaded_eq initial_def errorMessage_def)

lemma fetch_pages_entries:
  "list_all (\<lambda>(sv, p). \<not> truthy (error p)) ps \<Longrightarrow>
   entries (fetch_pages ns ps c) =
     (if ns \<and> ps \<noteq> [] then [] else entries c) @ concat (map (\<lambda>(sv, p). formattedEntries p) ps)"
  by (induction ps arbitrary: ns c) (auto simp: fetchEntries_ok)

lemma fetch_pages_hasMore:
  "list_all (\<lambda>(sv, p). \<not> truthy (error p) \<and> truthy (nextPageCursor p)) ps \<Longrightarrow> ps \<noteq> [] \<Longrightarrow>
   hasMore (fetch_pages ns ps c)"
proof (induction ps arbitrary: ns c)
  case Nil
  then show ?case by simp
next
  case (Cons a ps)
  obtain sv p where a: "a = (sv, p)" by (cases a)
  show ?case
  proof (cases ps)
    case Nil
    with Cons.prems a show ?thesis by (simp add: fetchEntries_ok)
  next
    case (Cons b qs)
    with Cons.prems Cons.IH a show ?thesis by simp
  qed
qed

text \<open>
  C3. A fresh search followed by continuation calls, every call answered with a body
  whose \<^verbatim>\<open>error\<close> is not truthy and whose \<^verbatim>\<open>nextPageCursor\<close> is truthy: after the \<open>n\<close>-th
  call the entry list is the concatenation of the mapped keys of the pages 1 to \<open>n\<close>, in
  the order of arrival, and \<^verbatim>\<open>hasMore\<close> holds.
\<close>

theorem pages_accumulate:
  assumes "list_all (\<lambda>(sv, p). \<not> truthy (error p) \<and> truthy (nextPageCursor p)) ps"
    and "0 < n" and "n \<le> length ps"
  shows "entries (fetch_pages True (take n ps) c) = concat (map (\<lambda>(sv, p). formattedEntries p) (take n ps))
       \<and> hasMore (fetch_pages True (take n ps) c)"
proof -
  have all: "list_all (\<lambda>(sv, p). \<not> truthy (error p) \<and> truthy (nextPageCursor p)) (take n ps)"
    using assms(1) by (auto simp: list_all_iff dest: in_set_takeD)
  then have ok: "list_all (\<lambda>(sv, p). \<not> truthy (error p)) (take n ps)"
    by (auto simp: list_all_iff)
  have ne: "take n ps \<noteq> []"
    using assms(2,3) by auto
  show ?thesis
    using fetch_pages_entries [OF ok, of True c] fetch_pages_hasMore [OF all ne, of True c] ne
    by simp
qed

text \<open>
  Three pages; a key that comes twice stays twice.
\<close>

theorem pages_accumulate_witness:
  "list_all (\<lambda>(sv, p). \<not> truthy (error p) \<and> truthy (nextPageCursor p))
     [(''q'', page [''a'', ''b''] (Some ''c1'')), (''q'', page [''c''] (Some ''c2'')), (''q'', page [''a''] (Some ''c3''))]
   \<and> (0::nat) < 3 \<and> (3::nat) \<le> length [(''q'', page [''a'', ''b''] (Some ''c1'')), (''q'', page [''c''] (Some ''c2'')), (''q'', page [''a''] (Some ''c3''))]
   \<and> entries (fetch_pages True [(''q'', page [''a'', ''b''] (Some ''c1'')), (''q'', page [''c''] (Some ''c2'')), (''q'', page [''a''] (Some ''c3''))] loaded)
      = [\<lparr>key = ''a''\<rparr>, \<lparr>key = ''b''\<rparr>, \<lparr>key = ''c''\<rparr>, \<lparr>key = ''a''\<rparr>]
   \<and> hasMore (fetch_pages True [(''q'', page [''a'', ''b''] (Some ''c1'')), (''q'', page [''c''] (Some ''c2'')), (''q'', page [''a''] (Some ''c3''))] loaded)"
proof -
  let ?ps = "[(''q'', page [''a'', ''b''] (Some ''c1'')), (''q'', page [''c''] (Some ''c2'')), (''q'', page [''a''] (Some ''c3''))]"
  have h: "list_all (\<lambda>(sv, p). \<not> truthy (error p) \<and> truthy (nextPageCursor p)) ?ps"
    by (simp add: page_def truthy_def)
  have n: "(0::nat) < 3" "(3::nat) \<le> length ?ps" by simp_all
  show ?thesis
    using h pages_accumulate [OF h n, of loaded]
    by (simp add: formattedEntries_def page_def)
qed

text \<open>
  C4. The cursor a call sends is empty when \<^verbatim>\<open>newSearch\<close> holds and the stored cursor
  otherwise. The request names the datastore and carries \<^verbatim>\<open>universeId\<close>, \<^verbatim>\<open>apiToken\<close> and
  \<^verbatim>\<open>prefix\<close>, each once, and the parameter \<^verbatim>\<open>cursor\<close> exactly when the cursor sent is not
  empty; this request is the one the call sends.
\<close>

theorem request_parameters:
  "datastore (fetch_request sv ns c) = datastoreName c
   \<and> map_of (params (fetch_request sv ns c)) ''universeId'' = Some (universeId c)
   \<and> map_of (params (fetch_request sv ns c)) ''apiToken'' = Some (apiToken c)
   \<and> map_of (params (fetch_request sv ns c)) ''prefix'' = Some sv
   \<and> map_of (params (fetch_request sv ns c)) ''cursor'' =
        (if currentCursor ns c = [] then None else Some (currentCursor ns c))
   \<and> currentCursor ns c = (if ns then [] else cursor c)
   \<and> distinct (map fst (params (fetch_request sv ns c)))
   \<and> set (map fst (params (fetch_request sv ns c))) =
        {''universeId'', ''apiToken'', ''prefix''} \<union> (if currentCursor ns c = [] then {} else {''cursor''})
   \<and> pending (fetchEntries_begin sv ns c) = pending c @ [(fetch_request sv ns c, ns)]"
  by (simp add: fetch_request_def currentCursor_def fetchEntries_begin_def)

text \<open>
  A continuation call after a page with next cursor \<open>c0\<close> sends it; a fresh search does not.
\<close>

theorem request_parameters_witness:
  "params (fetch_request ''q'' False loaded) =
     [(''universeId'', ''u''), (''apiToken'', ''t''), (''prefix'', ''q''), (''cursor'', ''c0'')]
   \<and> params (fetch_request ''q'' True loaded) =
     [(''universeId'', ''u''), (''apiToken'', ''t''), (''prefix'', ''q'')]
   \<and> map_of (params (fetch_request ''q'' False loaded)) ''cursor'' = Some ''c0''
   \<and> map_of (params (fetch_request ''q'' True loaded)) ''cursor'' = None
   \<and> datastore (fetch_request ''q'' False loaded) = ''ds''"
  using request_parameters [of "''q''" False loaded] request_parameters [of "''q''" True loaded]
  by (simp add: fetch_request_def currentCursor_def loaded_eq initial_def)

text \<open>
  C7. A call of \<^verbatim>\<open>fetchEntries\<close> sets \<^verbatim>\<open>isLoading\<close> when it starts, and when it goes on after
  its answer it ends with \<^verbatim>\<open>isLoading\<close> false, whatever the answer: a thrown value, a
  body with an error, a page. This holds for a call on its own and for a call that
  waited among others.
\<close>

theorem loading_flag_toggles:
  "isLoading (fetchEntries_begin sv ns c)
   \<and> \<not> isLoading (fetchEntries_resume ns out c)
   \<and> \<not> isLoading (fetchEntries out sv ns c)
   \<and> (i < length (pending c) \<longrightarrow> \<not> isLoading (fetchEntries_settle i out c))"
  by (simp add: fetchEntries_whole fetchEntries_begin_def fetchEntries_resume_def
      fetchEntries_settle_def)

text \<open>
  The three outcomes on a loaded component.
\<close>

theorem loading_flag_toggles_witness:
  "isLoading (fetchEntries_begin ''q'' True loaded)
   \<and> \<not> isLoading (fetchEntries (Parsed (page [''a''] None)) ''q'' True loaded)
   \<and> \<not> isLoading (fetchEntries (Parsed (\<lparr>error = Some ''not found'', keys = None, nextPageCursor = None\<rparr> :: unit response)) ''q'' True loaded)
   \<and> \<not> isLoading (fetchEntries (Threw NotAnError :: unit outcome) ''q'' True loaded)"
  using loading_flag_toggles [of "''q''" True loaded "Parsed (page [''a''] None)"]
    loading_flag_toggles [of "''q''" True loaded "Parsed (\<lparr>error = Some ''not found'', keys = None, nextPageCursor = None\<rparr> :: unit response)"]
    loading_flag_toggles [of "''q''" True loaded "Threw NotAnError :: unit outcome"]
  by simp

text \<open>
  C10. A body without \<^verbatim>\<open>keys\<close> (absent or \<^verbatim>\<open>null\<close>) and without a truthy \<^verbatim>\<open>error\<close> is an
  empty page: no toast, a fresh search leaves the entry list empty, a continuation call
  leaves it as it was, and the cursor and \<^verbatim>\<open>hasMore\<close> follow \<^verbatim>\<open>nextPageCursor\<close> as on any
  success.
\<close>

theorem missing_keys_is_empty_page:
  assumes "keys data = None" and "\<not> truthy (error data)"
  shows "toasts (fetchEntries (Parsed data) sv ns c) = toasts c
       \<and> entries (fetchEntries (Parsed data) sv ns c) = (if ns then [] else entries c)
       \<and> cursor (fetchEntries (Parsed data) sv ns c) = or_else (nextPageCursor data) []
       \<and> hasMore (fetchEntries (Parsed data) sv ns c) = truthy (nextPageCursor data)
       \<and> \<not> isLoading (fetchEntries (Parsed data) sv ns c)"
  using assms by (simp add: fetchEntries_ok formattedEntries_def)

text \<open>
  The body \<^verbatim>\<open>{"nextPageCursor": "c9"}\<close>.
\<close>

theorem missing_keys_is_empty_page_witness:
  "keys (\<lparr>error = None, keys = None, nextPageCursor = Some ''c9''\<rparr> :: unit response) = None
   \<and> \<not> truthy (error (\<lparr>error = None, keys = None, nextPageCursor = Some ''c9''\<rparr> :: unit response))
   \<and> toasts (fetchEntries (Parsed (\<lparr>error = None, keys = None, nextPageCursor = Some ''c9''\<rparr> :: unit response)) ''q'' False loaded) = []
   \<and> entries (fetchEntries (Parsed (\<lparr>error = None, keys = None, nextPageCursor = Some ''c9''\<rparr> :: unit response)) ''q'' False loaded) = [\<lparr>key = ''old''\<rparr>]
   \<and> entries (fetchEntries (Parsed (\<lparr>error = None, keys = None, nextPageCursor = Some ''c9''\<rparr> :: unit response)) ''q'' True loaded) = []
   \<and> cursor (fetchEntries (Parsed (\<lparr>error = None, keys = None, nextPageCursor = Some ''c9''\<rparr> :: unit response)) ''q'' False loaded) = ''c9''
   \<and> hasMore (fetchEntries (Parsed (\<lparr>error = None, keys = None, nextPageCursor = Some ''c9''\<rparr> :: unit response)) ''q'' False loaded)"
proof -
  let ?d = "\<lparr>error = None, keys = None, nextPageCursor = Some ''c9''\<rparr> :: unit response"
  have h: "keys ?d = None" "\<not> truthy (error ?d)" by (simp_all add: truthy_def)
  show ?thesis
    using h missing_keys_is_empty_page [OF h, of "''q''" False loaded]
      missing_keys_is_empty_page [OF h, of "''q''" True loaded]
    by (simp add: loaded_eq initial_def or_else_def truthy_def)
qed

section \<open>Properties of the component\<close>

lemma begin_simps [simp]:
  "hasMore (fetchEntries_begin sv ns c) = hasMore c"
  "entries (fetchEntries_begin sv ns c) = entries c"
  "cursor (fetchEntries_begin sv ns c) = cursor c"
  "searchQuery (fetchEntries_begin sv ns c) = searchQuery c"
  "mounted (fetchEntries_begin sv ns c) = mounted c"
  "timer (fetchEntries_begin sv ns c) = timer c"
  "universeId (fetchEntries_begin sv ns c) = universeId c"
  "apiToken (fetchEntries_begin sv ns c) = apiToken c"
  "datastoreName (fetchEntries_begin sv ns c) = datastoreName c"
  "toasts (fetchEntries_begin sv ns c) = toasts c"
  "selected (fetchEntries_begin sv ns c) = selected c"
  "isLoading (fetchEntries_begin sv ns c)"
  "pending (fetchEntries_begin sv ns c) = pending c @ [(fetch_request sv ns c, ns)]"
  by (simp_all add: fetchEntries_begin_def)

lemma rerender_simps [simp]:
  "hasMore (rerender old new) = hasMore new"
  "entries (rerender old new) = entries new"
  "cursor (rerender old new) = cursor new"
  "searchQuery (rerender old new) = searchQuery new"
  "mounted (rerender old new) = mounted new"
  by (simp_all add: rerender_def Let_def datastore_effect_def debounce_effect_def)

lemma settle_ok:
  "i < length (pending c) \<Longrightarrow> \<not> truthy (error data) \<Longrightarrow>
   fetchEntries_settle i (Parsed data) c =
     c\<lparr>entries := (if snd (pending c ! i) then formattedEntries data
                    else entries c @ formattedEntries data),
       cursor := or_else (nextPageCursor data) [],
       hasMore := truthy (nextPageCursor data),
       isLoading := False,
       pending := take i (pending c) @ drop (Suc i) (pending c)\<rparr>"
  by (simp add: fetchEntries_settle_def fetchEntries_resume_Inr [OF fetchEntries_try_Parsed_ok])

lemma settle_caught:
  "fetchEntries_try (snd (pending c ! i)) out c = Inl e \<Longrightarrow>
   hasMore (fetchEntries_settle i out c) = hasMore c \<and>
   entries (fetchEntries_settle i out c) = entries c \<and>
   cursor (fetchEntries_settle i out c) = cursor c"
  by (simp add: fetchEntries_settle_def fetchEntries_resume_Inl)

lemma try_cases:
  "(\<exists>data. out = Parsed data \<and> \<not> truthy (error data)) \<or> (\<exists>e. fetchEntries_try ns out c = Inl e)"
  by (cases out) (auto simp: fetchEntries_try_def)

lemma settle_hasMore:
  "\<not> brings_more (Respond i out) \<Longrightarrow> \<not> hasMore c \<Longrightarrow> \<not> hasMore (fetchEntries_settle i out c)"
proof (cases "i < length (pending c)")
  case False
  assume "\<not> hasMore c"
  with False show ?thesis by (simp add: fetchEntries_settle_def)
next
  case True
  assume nb: "\<not> brings_more (Respond i out)" and nh: "\<not> hasMore c"
  from try_cases [of out "snd (pending c ! i)" c] show ?thesis
  proof
    assume "\<exists>data. out = Parsed data \<and> \<not> truthy (error data)"
    then obtain data where d: "out = Parsed data" "\<not> truthy (error data)" by blast
    with nb have "\<not> truthy (nextPageCursor data)" by simp
    with d True show ?thesis by (simp add: settle_ok)
  next
    assume "\<exists>e. fetchEntries_try (snd (pending c ! i)) out c = Inl e"
    then obtain e where "fetchEntries_try (snd (pending c ! i)) out c = Inl e" ..
    from settle_caught [OF this] nh show ?thesis by simp
  qed
qed

lemma step_keeps_exhausted:
  "\<not> brings_more e \<Longrightarrow> \<not> hasMore c \<Longrightarrow> \<not> hasMore (step e c)"
proof (cases e)
  case (Respond i out)
  assume "\<not> brings_more e" "\<not> hasMore c"
  with Respond settle_hasMore [of i out c] show ?thesis by (simp add: Let_def)
next
  case (Elapse d)
  assume "\<not> hasMore c"
  with Elapse show ?thesis by (simp add: timer_callback_def split: option.split)
qed (simp_all add: observing_def handleEntrySelect_def)

lemma run_keeps_exhausted:
  "list_all (\<lambda>e. \<not> brings_more e) es \<Longrightarrow> \<not> hasMore c \<Longrightarrow>
   \<not> hasMore (run es c) \<and> sentinel_fetches es c = 0"
proof (induction es arbitrary: c)
  case Nil
  then show ?case by simp
next
  case (Cons e es)
  from Cons.prems have e: "\<not> brings_more e" and es: "list_all (\<lambda>e. \<not> brings_more e) es"
    by simp_all
  from step_keeps_exhausted [OF e Cons.prems(2)] have "\<not> hasMore (step e c)" .
  from Cons.IH [OF es this] Cons.prems(2) show ?case
    by (simp add: observing_def split: event.split)
qed

lemmas model_defs = mount_def initial_def debounce_effect_def datastore_effect_def
      observing_def observer_callback_def fetchEntries_begin_def fetch_request_def currentCursor_def
      rerender_def fetchEntries_changed_def fetchEntries_settle_def fetchEntries_resume_def
      fetchEntries_try_def truthy_def or_else_def formattedEntries_def page_def Let_def
      timer_callback_def handleEntrySelect_def errorMessage_def

text \<open>
  The component \<open>loaded\<close> is what a mounted component is after its first page, the answer
  to the search the datastore effect repeats for the new cursor, and the debounced
  search with its answer.
\<close>

lemma loaded_reachable:
  "run [Respond 0 (Parsed (page [''old''] (Some ''c0''))),
        Respond 0 (Parsed (page [''old''] (Some ''c0''))),
        Elapse 500,
        Respond 0 (Parsed (page [''old''] (Some ''c0'')))] (mount ''u'' ''t'' ''ds'') = loaded"
  by (simp add: loaded_eq model_defs)

text \<open>
  C5, as stated, fails. No datastore is chosen, so neither effect fetches. The sentinel
  is visible at once and starts a continuation call; then the user types \<open>x\<close>, which starts a
  fresh search. The answer to the search comes first and has no \<^verbatim>\<open>nextPageCursor\<close>:
  \<^verbatim>\<open>hasMore\<close> is false. No new search begins after that, but the answer to the older call
  arrives with a cursor, \<^verbatim>\<open>hasMore\<close> is true again, and the sentinel starts one more fetch.
\<close>

theorem late_answer_wakes_sentinel:
  "nextPageCursor (page [''x1''] None) = None
   \<and> \<not> hasMore (run racing unselected)
   \<and> \<not> isLoading (run racing unselected)
   \<and> searchQuery (run racing unselected) = ''x''
   \<and> datastoreName (run racing unselected) = []
   \<and> pending (run [Respond 0 (Parsed (page [''a''] (Some ''c1'')))] (run racing unselected)) = []
   \<and> sentinel_fetches [Respond 0 (Parsed (page [''a''] (Some ''c1''))), Intersect] (run racing unselected) = 1
   \<and> pending (run [Respond 0 (Parsed (page [''a''] (Some ''c1''))), Intersect] (run racing unselected))
       = [(\<lparr>datastore = [], params = [(''universeId'', ''u''), (''apiToken'', ''t''), (''prefix'', ''x''), (''cursor'', ''c1'')]\<rparr>, False)]"
  by (simp add: racing_def unselected_def model_defs)

text \<open>
  C5, amended. On a mounted component an answer with a parsed body whose \<^verbatim>\<open>error\<close> and
  \<^verbatim>\<open>nextPageCursor\<close> are both not truthy leaves \<^verbatim>\<open>hasMore\<close> false. While \<^verbatim>\<open>hasMore\<close> is false,
  and likewise while \<^verbatim>\<open>isLoading\<close> is true, a visible sentinel changes nothing and starts no
  fetch. From a component whose \<^verbatim>\<open>hasMore\<close> is false, through any events none of which is
  an answer that succeeds with a truthy \<^verbatim>\<open>nextPageCursor\<close>, \<^verbatim>\<open>hasMore\<close> stays false and the
  sentinel starts no fetch.
\<close>

theorem exhausted_sentinel_inert:
  "(mounted c \<and> i < length (pending c) \<and> \<not> truthy (error data) \<and> \<not> truthy (nextPageCursor data)
      \<longrightarrow> \<not> hasMore (step (Respond i (Parsed (data :: 'm response))) c))
   \<and> (\<not> hasMore c \<or> isLoading c \<longrightarrow> step (Intersect :: 'm event) c = c)
   \<and> (\<not> hasMore c \<and> list_all (\<lambda>e. \<not> brings_more e) (es :: 'm event list)
      \<longrightarrow> \<not> hasMore (run es c) \<and> sentinel_fetches es c = 0)"
  using run_keeps_exhausted [of es c]
  by (auto simp: settle_ok observing_def Let_def)


text \<open>
  The run of the counterexample up to the answer without cursor, the freshly mounted
  component, which is loading, and a run of five events after the answer without cursor.
\<close>

theorem exhausted_sentinel_inert_witness:
  "mounted (run [Intersect, Change ''x'' :: unit event] unselected)
   \<and> 1 < length (pending (run [Intersect, Change ''x'' :: unit event] unselected))
   \<and> \<not> truthy (error (page [''x1''] None))
   \<and> \<not> truthy (nextPageCursor (page [''x1''] None))
   \<and> \<not> hasMore (step (Respond 1 (Parsed (page [''x1''] None)))
                   (run [Intersect, Change ''x'' :: unit event] unselected))
   \<and> isLoading (mount ''u'' ''t'' ''ds'')
   \<and> step (Intersect :: unit event) (mount ''u'' ''t'' ''ds'') = mount ''u'' ''t'' ''ds''
   \<and> \<not> hasMore (run racing unselected)
   \<and> step (Intersect :: unit event) (run racing unselected) = run racing unselected
   \<and> list_all (\<lambda>e. \<not> brings_more e)
        [Intersect, Click ''x1'', Elapse 500, Respond 0 (Threw NotAnError), Intersect :: unit event]
   \<and> \<not> hasMore (run [Intersect, Click ''x1'', Elapse 500, Respond 0 (Threw NotAnError),
                        Intersect :: unit event] (run racing unselected))
   \<and> sentinel_fetches [Intersect, Click ''x1'', Elapse 500, Respond 0 (Threw NotAnError),
                        Intersect :: unit event] (run racing unselected) = 0"
proof -
  let ?c1 = "run [Intersect, Change ''x'' :: unit event] unselected"
  let ?c2 = "run racing unselected"
  let ?es = "[Intersect, Click ''x1'', Elapse 500, Respond 0 (Threw NotAnError), Intersect :: unit event]"
  have a: "mounted ?c1" "1 < length (pending ?c1)" "\<not> truthy (error (page [''x1''] None))"
    "\<not> truthy (nextPageCursor (page [''x1''] None))"
    by (simp_all add: unselected_def model_defs)
  have b: "isLoading (mount ''u'' ''t'' ''ds'')"
    by (simp add: model_defs)
  have c: "\<not> hasMore ?c2"
    by (simp add: racing_def unselected_def model_defs)
  have d: "list_all (\<lambda>e. \<not> brings_more e) ?es"
    by simp
  from a exhausted_sentinel_inert [where c = ?c1 and i = 1 and data = "page [''x1''] None"]
  have 1: "\<not> hasMore (step (Respond 1 (Parsed (page [''x1''] None))) ?c1)"
    by blast
  from b exhausted_sentinel_inert [where c = "mount ''u'' ''t'' ''ds''" and 'm = unit]
  have 2: "step (Intersect :: unit event) (mount ''u'' ''t'' ''ds'') = mount ''u'' ''t'' ''ds''"
    by blast
  from c d exhausted_sentinel_inert [where c = ?c2 and es = ?es]
  have 3: "step (Intersect :: unit event) ?c2 = ?c2" "\<not> hasMore (run ?es ?c2)"
    "sentinel_fetches ?es ?c2 = 0"
    by blast+
  from a b c d 1 2 3 show ?thesis by blast
qed

text \<open>
  A consequence of the dependencies of the datastore effect: when the answer to a
  continuation call changes the cursor, the effect of lines 73 to 77 runs again and
  sends a fresh search with the empty prefix, and the answer to that replaces the list.
\<close>

lemma cursor_change_reruns_datastore_effect:
  "entries (run [Intersect, Respond 0 (Parsed (page [''new''] (Some ''c1'')))] loaded)
     = [\<lparr>key = ''old''\<rparr>, \<lparr>key = ''new''\<rparr>]
   \<and> pending (run [Intersect, Respond 0 (Parsed (page [''new''] (Some ''c1'')))] loaded)
     = [(\<lparr>datastore = ''ds'',
          params = [(''universeId'', ''u''), (''apiToken'', ''t''), (''prefix'', [])]\<rparr>, True)]
   \<and> entries (run [Intersect, Respond 0 (Parsed (page [''new''] (Some ''c1''))),
                   Respond 0 (Parsed (page [''old''] (Some ''c0'')))] loaded)
     = [\<lparr>key = ''old''\<rparr>]"
  by (simp add: loaded_eq model_defs)

text \<open>
  In the same way the last page, which empties the cursor, is followed by a fresh search
  that the component sends by itself; when that is answered with page one again,
  \<^verbatim>\<open>hasMore\<close> holds again and a visible sentinel fetches.
\<close>

lemma last_page_restarts_listing:
  "\<not> hasMore (run [Intersect, Respond 0 (Parsed (page [''new''] None))] loaded)
   \<and> pending (run [Intersect, Respond 0 (Parsed (page [''new''] None))] loaded)
     = [(\<lparr>datastore = ''ds'',
          params = [(''universeId'', ''u''), (''apiToken'', ''t''), (''prefix'', [])]\<rparr>, True)]
   \<and> hasMore (run [Intersect, Respond 0 (Parsed (page [''new''] None)),
                   Respond 0 (Parsed (page [''old''] (Some ''c0''))),
                   Respond 0 (Parsed (page [''old''] (Some ''c0'')))] loaded)
   \<and> sentinel_fetches [Respond 0 (Parsed (page [''old''] (Some ''c0''))),
                        Respond 0 (Parsed (page [''old''] (Some ''c0''))), Intersect]
        (run [Intersect, Respond 0 (Parsed (page [''new''] None))] loaded) = 1"
  by (simp add: loaded_eq model_defs)

text \<open>
  C6, as stated, fails. A component that shows the key \<open>old\<close> still shows it when the search
  text has changed to \<open>x\<close>, and when the datastore name has changed: nothing empties the
  list. When the fresh search for \<open>x\<close> is then answered with an error, the list is still
  \<open>old\<close>, not the page of that answer.
\<close>

theorem new_session_keeps_entries:
  "entries loaded = [\<lparr>key = ''old''\<rparr>]
   \<and> searchQuery loaded \<noteq> ''x''
   \<and> searchQuery (step (Change ''x'' :: unit event) loaded) = ''x''
   \<and> entries (step (Change ''x'' :: unit event) loaded) = [\<lparr>key = ''old''\<rparr>]
   \<and> datastoreName loaded \<noteq> ''other''
   \<and> datastoreName (step (Props ''u'' ''t'' ''other'' :: unit event) loaded) = ''other''
   \<and> entries (step (Props ''u'' ''t'' ''other'' :: unit event) loaded) = [\<lparr>key = ''old''\<rparr>]
   \<and> pending (run [Change ''x'',
          Respond 0 (Parsed \<lparr>error = Some ''boom'', keys = Some [\<lparr>key = ''x1''\<rparr>], nextPageCursor = None\<rparr>)]
          loaded) = []
   \<and> entries (run [Change ''x'',
          Respond 0 (Parsed \<lparr>error = Some ''boom'', keys = Some [\<lparr>key = ''x1''\<rparr>], nextPageCursor = None\<rparr>)]
          loaded) = [\<lparr>key = ''old''\<rparr>]"
  by (simp add: loaded_eq model_defs)

text \<open>
  C6, amended. A change of the search text and a change of the props leave the entry
  list as it is. On a mounted component the answer to a pending call, when it is a
  parsed body whose \<^verbatim>\<open>error\<close> is not truthy, makes the list exactly the mapped keys of that
  page if the call was a fresh search, and the old list followed by them if it was a
  continuation call. An answer with a truthy \<^verbatim>\<open>error\<close> and a thrown value leave the list as
  it is.
\<close>

theorem fresh_page_replaces_entries:
  "entries (step (Change v :: 'm event) c) = entries c
   \<and> entries (step (Props u t d :: 'm event) c) = entries c
   \<and> (mounted c \<and> i < length (pending c) \<and> \<not> truthy (error data) \<longrightarrow>
        entries (step (Respond i (Parsed (data :: 'm response))) c) =
          (if snd (pending c ! i) then formattedEntries data
           else entries c @ formattedEntries data))
   \<and> (truthy (error data) \<longrightarrow> entries (step (Respond i (Parsed data)) c) = entries c)
   \<and> entries (step (Respond i (Threw e :: 'm outcome)) c) = entries c"
proof -
  have caught: "entries (step (Respond i out) c) = entries c"
    if "fetchEntries_try (snd (pending c ! i)) (out :: 'm outcome) c = Inl x" for out x
    using settle_caught [OF that] by (simp add: Let_def)
  have "fetchEntries_try (snd (pending c ! i)) (Parsed data) c = Inl (ErrorInstance (or_else (error data) []))"
    if "truthy (error data)"
    using that by (simp add: fetchEntries_try_def)
  from caught [OF this] caught [OF fetchEntries_try_Threw]
  show ?thesis by (simp add: settle_ok Let_def)
qed

text \<open>
  A fresh search for \<open>x\<close> answered with two keys, and a continuation call answered with
  the same page.
\<close>

theorem fresh_page_replaces_entries_witness:
  "entries (step (Change ''x'' :: unit event) loaded) = [\<lparr>key = ''old''\<rparr>]
   \<and> mounted (step (Change ''x'' :: unit event) loaded)
   \<and> 0 < length (pending (step (Change ''x'' :: unit event) loaded))
   \<and> snd (pending (step (Change ''x'' :: unit event) loaded) ! 0)
   \<and> \<not> truthy (error (page [''x1'', ''x2''] (Some ''c1'')))
   \<and> entries (run [Change ''x'', Respond 0 (Parsed (page [''x1'', ''x2''] (Some ''c1'')))] loaded)
        = [\<lparr>key = ''x1''\<rparr>, \<lparr>key = ''x2''\<rparr>]
   \<and> mounted loaded
   \<and> 0 < length (pending (step (Intersect :: unit event) loaded))
   \<and> \<not> snd (pending (step (Intersect :: unit event) loaded) ! 0)
   \<and> entries (run [Intersect, Respond 0 (Parsed (page [''x1'', ''x2''] (Some ''c1'')))] loaded)
        = [\<lparr>key = ''old''\<rparr>, \<lparr>key = ''x1''\<rparr>, \<lparr>key = ''x2''\<rparr>]"
proof -
  let ?c = "step (Change ''x'' :: unit event) loaded"
  let ?s = "step (Intersect :: unit event) loaded"
  let ?p = "page [''x1'', ''x2''] (Some ''c1'')"
  have a: "mounted ?c" "0 < length (pending ?c)" "snd (pending ?c ! 0)" "\<not> truthy (error ?p)"
    "mounted ?s" "0 < length (pending ?s)" "\<not> snd (pending ?s ! 0)" "mounted loaded"
    by (simp_all add: loaded_eq model_defs)
  from a fresh_page_replaces_entries [where c = ?c and i = 0 and data = ?p]
  have 1: "entries (step (Respond 0 (Parsed ?p)) ?c) = formattedEntries ?p"
    by simp
  from a fresh_page_replaces_entries [where c = ?s and i = 0 and data = ?p]
  have 2: "entries (step (Respond 0 (Parsed ?p)) ?s) = entries ?s @ formattedEntries ?p"
    by simp
  have 3: "entries ?c = entries loaded" "entries ?s = entries loaded"
    using fresh_page_replaces_entries [where c = loaded and v = "''x''" and 'm = unit]
    by (simp_all add: observing_def observer_callback_def)
  from a 1 2 3 show ?thesis
    by (simp add: formattedEntries_def page_def loaded_eq initial_def)
qed

text \<open>
  C8, as stated, fails. With an empty datastore name the change handler still fetches at
  once, and the timer is set; but when it expires after 500 milliseconds its callback
  tests \<^verbatim>\<open>datastoreName\<close> (line 81) and fetches nothing: one request has been sent, not two.
\<close>

theorem no_debounced_fetch_without_datastore:
  "datastoreName unselected = []
   \<and> searchQuery unselected \<noteq> ''x''
   \<and> timer (step (Change ''x'' :: unit event) unselected) = Some 500
   \<and> pending (step (Change ''x'' :: unit event) unselected)
       = [(\<lparr>datastore = [], params = [(''universeId'', ''u''), (''apiToken'', ''t''), (''prefix'', ''x'')]\<rparr>, True)]
   \<and> timer (run [Change ''x'', Elapse 500 :: unit event] unselected) = None
   \<and> pending (run [Change ''x'', Elapse 500 :: unit event] unselected)
       = [(\<lparr>datastore = [], params = [(''universeId'', ''u''), (''apiToken'', ''t''), (''prefix'', ''x'')]\<rparr>, True)]"
  by (simp add: unselected_def model_defs)

lemma change_state:
  "mounted c \<Longrightarrow> v \<noteq> searchQuery c \<Longrightarrow>
   step (Change v) c =
     c\<lparr>searchQuery := v, isLoading := True,
       pending := pending c @ [(fetch_request v True c, True)], timer := Some 500\<rparr>"
  by (simp add: rerender_def fetchEntries_changed_def debounce_effect_def fetchEntries_begin_def
      fetch_request_def currentCursor_def)

text \<open>
  C8, amended. On a mounted component a change of the search text to a new value \<open>v\<close>
  sends a fresh search for \<open>v\<close> at once and sets the timer to 500 milliseconds. Before
  the 500 milliseconds are over nothing more is sent; another change in that time sends
  its own fresh search and sets the timer to 500 again, and unmounting clears the timer
  for good. When 500 milliseconds pass with no other event, the timer sends one more
  fresh search for \<open>v\<close> if the datastore name is not empty, and nothing if it is empty.
\<close>

theorem change_fetches_and_debounces:
  assumes "mounted c" and "v \<noteq> searchQuery c"
  shows "pending (step (Change v :: 'm event) c) = pending c @ [(fetch_request v True c, True)]
       \<and> timer (step (Change v :: 'm event) c) = Some 500
       \<and> (d < 500 \<longrightarrow>
            step (Elapse d :: 'm event) (step (Change v :: 'm event) c)
              = (step (Change v :: 'm event) c)\<lparr>timer := Some (500 - d)\<rparr>)
       \<and> (d < 500 \<and> w \<noteq> v \<longrightarrow>
            timer (run [Change v, Elapse d, Change w :: 'm event] c) = Some 500
            \<and> pending (run [Change v, Elapse d, Change w :: 'm event] c)
                = pending c @ [(fetch_request v True c, True), (fetch_request w True c, True)])
       \<and> timer (step (Unmount :: 'm event) (step (Change v :: 'm event) c)) = None
       \<and> step (Elapse d :: 'm event) (step (Unmount :: 'm event) (step (Change v :: 'm event) c))
            = step (Unmount :: 'm event) (step (Change v :: 'm event) c)
       \<and> (500 \<le> d \<longrightarrow>
            timer (run [Change v, Elapse d :: 'm event] c) = None
            \<and> pending (run [Change v, Elapse d :: 'm event] c)
                = pending c @ [(fetch_request v True c, True)]
                  @ (if datastoreName c = [] then [] else [(fetch_request v True c, True)]))"
proof -
  let ?c = "step (Change v :: 'm event) c"
  have c': "?c = c\<lparr>searchQuery := v, isLoading := True,
       pending := pending c @ [(fetch_request v True c, True)], timer := Some 500\<rparr>"
    by (rule change_state [OF assms])
  have early: "step (Elapse d :: 'm event) ?c = ?c\<lparr>timer := Some (500 - d)\<rparr>" if "d < 500"
    unfolding c' using that by simp
  have again: "step (Change w :: 'm event) (?c\<lparr>timer := Some (500 - d)\<rparr>)
      = c\<lparr>searchQuery := w, isLoading := True,
          pending := pending c @ [(fetch_request v True c, True), (fetch_request w True c, True)],
          timer := Some 500\<rparr>" if "w \<noteq> v"
    unfolding c' using that assms(1)
    by (simp add: rerender_def fetchEntries_changed_def debounce_effect_def
        fetchEntries_begin_def fetch_request_def currentCursor_def)
  have expiry: "step (Elapse d :: 'm event) ?c
      = (if datastoreName c = [] then ?c\<lparr>timer := None\<rparr>
         else ?c\<lparr>timer := None,
                 pending := pending c @ [(fetch_request v True c, True), (fetch_request v True c, True)]\<rparr>)"
    if "500 \<le> d"
    unfolding c' using that
    by (simp add: timer_callback_def fetchEntries_begin_def fetch_request_def currentCursor_def)
  have unm: "step (Elapse d :: 'm event) (step (Unmount :: 'm event) ?c) = step (Unmount :: 'm event) ?c"
    by simp
  have runs: "run [Change v, Elapse d, Change w :: 'm event] c
        = step (Change w) (step (Elapse d) ?c)"
      "run [Change v, Elapse d :: 'm event] c = step (Elapse d) ?c"
    by simp_all
  show ?thesis
    unfolding runs using early again expiry unm
    by (auto simp add: c' simp del: step.simps) (simp_all add: c')
qed

text \<open>
  Typing \<open>x\<close> on the loaded component: two requests after 500 milliseconds, and a restart
  when \<open>xy\<close> follows after 200.
\<close>

theorem change_fetches_and_debounces_witness:
  "mounted loaded \<and> ''x'' \<noteq> searchQuery loaded \<and> (200::nat) < 500 \<and> ''xy'' \<noteq> ''x'' \<and> (500::nat) \<le> 500
   \<and> pending (step (Change ''x'' :: unit event) loaded)
       = [(\<lparr>datastore = ''ds'', params = [(''universeId'', ''u''), (''apiToken'', ''t''), (''prefix'', ''x'')]\<rparr>, True)]
   \<and> timer (step (Change ''x'' :: unit event) loaded) = Some 500
   \<and> timer (run [Change ''x'', Elapse 200 :: unit event] loaded) = Some 300
   \<and> timer (run [Change ''x'', Elapse 200, Change ''xy'' :: unit event] loaded) = Some 500
   \<and> pending (run [Change ''x'', Elapse 200, Change ''xy'' :: unit event] loaded)
       = [(\<lparr>datastore = ''ds'', params = [(''universeId'', ''u''), (''apiToken'', ''t''), (''prefix'', ''x'')]\<rparr>, True),
          (\<lparr>datastore = ''ds'', params = [(''universeId'', ''u''), (''apiToken'', ''t''), (''prefix'', ''xy'')]\<rparr>, True)]
   \<and> timer (run [Change ''x'', Unmount :: unit event] loaded) = None
   \<and> pending (run [Change ''x'', Elapse 500 :: unit event] loaded)
       = [(\<lparr>datastore = ''ds'', params = [(''universeId'', ''u''), (''apiToken'', ''t''), (''prefix'', ''x'')]\<rparr>, True),
          (\<lparr>datastore = ''ds'', params = [(''universeId'', ''u''), (''apiToken'', ''t''), (''prefix'', ''x'')]\<rparr>, True)]"
proof -
  have h: "mounted loaded" "''x'' \<noteq> searchQuery loaded"
    by (simp_all add: loaded_eq initial_def)
  have r: "fetch_request ''x'' True loaded
        = \<lparr>datastore = ''ds'', params = [(''universeId'', ''u''), (''apiToken'', ''t''), (''prefix'', ''x'')]\<rparr>"
      "fetch_request ''xy'' True loaded
        = \<lparr>datastore = ''ds'', params = [(''universeId'', ''u''), (''apiToken'', ''t''), (''prefix'', ''xy'')]\<rparr>"
      "pending loaded = []" "datastoreName loaded = ''ds''"
    by (simp_all add: loaded_eq initial_def fetch_request_def currentCursor_def)
  from change_fetches_and_debounces [OF h, where d = 200 and w = "''xy''" and 'm = unit]
    change_fetches_and_debounces [OF h, where d = 500 and w = "''xy''" and 'm = unit]
  show ?thesis by (simp add: loaded_eq model_defs)
qed

text \<open>
  C9. A click on the button of a key \<open>k\<close> that is in the list of a mounted component runs
  \<^verbatim>\<open>handleEntrySelect\<close>: one call of \<^verbatim>\<open>onSelectEntry\<close> with \<open>k\<close> is added to the calls made so
  far, with one console line, and nothing else changes: not the entry list, the cursor,
  \<^verbatim>\<open>hasMore\<close>, \<^verbatim>\<open>isLoading\<close>, the search text, the pending requests, the timer or the toasts.
\<close>

theorem select_calls_back_once:
  assumes "mounted c" and "k \<in> set (map key (entries c))"
  shows "step (Click k :: 'm event) c = handleEntrySelect k c
       \<and> selected (handleEntrySelect k c) = selected c @ [k]
       \<and> handleEntrySelect k c
           = c\<lparr>console := console c @ [''Selected entry: '' @ k], selected := selected c @ [k]\<rparr>
       \<and> entries (step (Click k :: 'm event) c) = entries c
       \<and> cursor (step (Click k :: 'm event) c) = cursor c
       \<and> hasMore (step (Click k :: 'm event) c) = hasMore c
       \<and> isLoading (step (Click k :: 'm event) c) = isLoading c
       \<and> searchQuery (step (Click k :: 'm event) c) = searchQuery c
       \<and> pending (step (Click k :: 'm event) c) = pending c
       \<and> timer (step (Click k :: 'm event) c) = timer c
       \<and> toasts (step (Click k :: 'm event) c) = toasts c"
  using assms by (simp add: handleEntrySelect_def)

text \<open>
  A click on \<open>k1\<close> in a list of two keys.
\<close>

theorem select_calls_back_once_witness:
  "mounted (fetchEntries (Parsed (page [''k0'', ''k1''] (Some ''c1''))) [] True loaded)
   \<and> ''k1'' \<in> set (map key (entries (fetchEntries (Parsed (page [''k0'', ''k1''] (Some ''c1''))) [] True loaded)))
   \<and> selected (step (Click ''k1'' :: unit event)
        (fetchEntries (Parsed (page [''k0'', ''k1''] (Some ''c1''))) [] True loaded)) = [''k1'']
   \<and> entries (step (Click ''k1'' :: unit event)
        (fetchEntries (Parsed (page [''k0'', ''k1''] (Some ''c1''))) [] True loaded))
       = [\<lparr>key = ''k0''\<rparr>, \<lparr>key = ''k1''\<rparr>]
   \<and> cursor (step (Click ''k1'' :: unit event)
        (fetchEntries (Parsed (page [''k0'', ''k1''] (Some ''c1''))) [] True loaded)) = ''c1''
   \<and> hasMore (step (Click ''k1'' :: unit event)
        (fetchEntries (Parsed (page [''k0'', ''k1''] (Some ''c1''))) [] True loaded))
   \<and> \<not> isLoading (step (Click ''k1'' :: unit event)
        (fetchEntries (Parsed (page [''k0'', ''k1''] (Some ''c1''))) [] True loaded))"
proof -
  let ?c = "fetchEntries (Parsed (page [''k0'', ''k1''] (Some ''c1''))) [] True loaded"
  have ok: "\<not> truthy (error (page [''k0'', ''k1''] (Some ''c1'')))"
    by (simp add: page_def truthy_def)
  have c: "?c = loaded\<lparr>entries := [\<lparr>key = ''k0''\<rparr>, \<lparr>key = ''k1''\<rparr>], cursor := ''c1''\<rparr>"
    unfolding fetchEntries_ok [OF ok]
    by (simp add: formattedEntries_def page_def or_else_def truthy_def loaded_eq initial_def)
  have h: "mounted ?c" "''k1'' \<in> set (map key (entries ?c))"
    unfolding c by (simp_all add: loaded_eq initial_def)
  from select_calls_back_once [OF h, where 'm = unit] h show ?thesis
    unfolding c by (simp add: loaded_eq initial_def handleEntrySelect_def)
qed

end
